theory Spec2Isabelle
  imports Complex_Main
begin

section \<open>Numbers\<close>

text \<open>
  JavaScript has one number type. Counters that the program only ever steps by whole
  amounts (score, lives, combo) are modelled as \<open>int\<close>; durations, speeds and
  coordinates are modelled as \<open>real\<close>, which idealises IEEE doubles (no rounding,
  no NaN, no infinities).
\<close>

section \<open>Constants (core/Constants.js)\<close>

definition GAMEPLAY_AUTO_SPEED :: real where "GAMEPLAY_AUTO_SPEED = 8"
definition GAMEPLAY_SPEED_INCREASE_RATE :: real where "GAMEPLAY_SPEED_INCREASE_RATE = 15 / 100"
definition GAMEPLAY_MAX_SPEED :: real where "GAMEPLAY_MAX_SPEED = 25"
definition GAMEPLAY_LIVES :: int where "GAMEPLAY_LIVES = 3"
definition COMBO_TIMEOUT_MS :: real where "COMBO_TIMEOUT_MS = 3000"
definition COMBO_MULTIPLIER_CAP :: int where "COMBO_MULTIPLIER_CAP = 10"

section \<open>GameState (core/GameState.js)\<close>

record GameState =
  score :: int
  bestScore :: int
  started :: bool
  gameOver :: bool
  lives :: int
  combo :: int
  bestCombo :: int
  currentSpeed :: real
  housesHit :: int
  totalThrown :: int
  isMuted :: bool
  comboTimer :: real

text \<open>\<open>x || 0\<close> on a number: a falsy number (zero) gives the right operand.\<close>

definition or_zero :: "int \<Rightarrow> int" where
  "or_zero x = (if x = 0 then 0 else x)"

text \<open>
  \<open>reset()\<close> on an object whose fields are all defined. \<open>isMuted\<close> is only
  loaded from storage when it is \<open>undefined\<close>, which cannot be the case here.
\<close>

definition reset :: "GameState \<Rightarrow> GameState" where
  "reset s = s\<lparr>
     score := 0,
     bestScore := or_zero (bestScore s),
     started := False,
     gameOver := False,
     lives := GAMEPLAY_LIVES,
     combo := 0,
     bestCombo := or_zero (bestCombo s),
     currentSpeed := GAMEPLAY_AUTO_SPEED,
     housesHit := 0,
     totalThrown := 0,
     comboTimer := 0\<rparr>"

text \<open>
  The constructor runs \<open>reset()\<close> on a fresh object: \<open>undefined || 0\<close> is 0 for
  \<open>bestScore\<close> and \<open>bestCombo\<close>, and \<open>isMuted\<close> is read from local storage.
  \<open>stored\<close> is \<open>Some b\<close> when the read succeeds (\<open>b\<close>: the stored string equals
  \<open>'true'\<close>) and \<open>None\<close> when it throws.
\<close>

definition new_GameState :: "bool option \<Rightarrow> GameState" where
  "new_GameState stored = \<lparr>
     score = 0,
     bestScore = 0,
     started = False,
     gameOver = False,
     lives = GAMEPLAY_LIVES,
     combo = 0,
     bestCombo = 0,
     currentSpeed = GAMEPLAY_AUTO_SPEED,
     housesHit = 0,
     totalThrown = 0,
     isMuted = (case stored of Some b \<Rightarrow> b | None \<Rightarrow> False),
     comboTimer = 0\<rparr>"

text \<open>\<open>addScore(points)\<close> returns the points awarded and the updated state.\<close>

definition addScore :: "int \<Rightarrow> GameState \<Rightarrow> int \<times> GameState" where
  "addScore points s =
     (let multiplier = min (combo s) COMBO_MULTIPLIER_CAP;
          finalPoints = points * max 1 multiplier;
          s1 = s\<lparr>score := score s + finalPoints\<rparr>;
          s2 = (if score s1 > bestScore s1 then s1\<lparr>bestScore := score s1\<rparr> else s1)
      in (finalPoints, s2))"

definition incrementCombo :: "GameState \<Rightarrow> GameState" where
  "incrementCombo s =
     (let s1 = s\<lparr>combo := combo s + 1\<rparr>;
          s2 = (if combo s1 > bestCombo s1 then s1\<lparr>bestCombo := combo s1\<rparr> else s1)
      in s2\<lparr>comboTimer := COMBO_TIMEOUT_MS\<rparr>)"

definition resetCombo :: "GameState \<Rightarrow> GameState" where
  "resetCombo s = s\<lparr>combo := 0, comboTimer := 0\<rparr>"

definition updateComboTimer :: "real \<Rightarrow> GameState \<Rightarrow> bool \<times> GameState" where
  "updateComboTimer deltaMs s =
     (if combo s > 0 \<and> comboTimer s > 0 then
        (let s1 = s\<lparr>comboTimer := comboTimer s - deltaMs\<rparr>
         in if comboTimer s1 \<le> 0 then (True, resetCombo s1) else (False, s1))
      else (False, s))"

definition loseLife :: "GameState \<Rightarrow> bool \<times> GameState" where
  "loseLife s = (let s1 = s\<lparr>lives := lives s - 1\<rparr> in (lives s1 \<le> 0, s1))"

subsection \<open>Sequences of GameState operations\<close>

datatype gs_op =
    Reset
  | AddScore int
  | IncrementCombo
  | ResetCombo
  | UpdateComboTimer real
  | LoseLife

fun apply_op :: "gs_op \<Rightarrow> GameState \<Rightarrow> GameState" where
  "apply_op Reset s = reset s"
| "apply_op (AddScore p) s = snd (addScore p s)"
| "apply_op IncrementCombo s = incrementCombo s"
| "apply_op ResetCombo s = resetCombo s"
| "apply_op (UpdateComboTimer d) s = snd (updateComboTimer d s)"
| "apply_op LoseLife s = snd (loseLife s)"

fun run_ops :: "gs_op list \<Rightarrow> GameState \<Rightarrow> GameState" where
  "run_ops [] s = s"
| "run_ops (x # xs) s = run_ops xs (apply_op x s)"



definition combo_inv :: "GameState \<Rightarrow> bool" where
  "combo_inv s = ((combo s > 0) = (comboTimer s > 0))"

text \<open>The invariant together with the fact that makes it inductive.\<close>

definition combo_inv_strong :: "GameState \<Rightarrow> bool" where
  "combo_inv_strong s = (combo s \<ge> 0 \<and> combo_inv s)"

section \<open>Entities\<close>

text \<open>
  A \<open>THREE.Vector3\<close>. The fields \<open>x\<close>, \<open>y\<close>, \<open>z\<close> are named \<open>px\<close>, \<open>py\<close>, \<open>pz\<close>.
\<close>

record vec3 =
  px :: real
  py :: real
  pz :: real

text \<open>
  Every entity owns a \<open>mesh\<close> with a \<open>position\<close>; pool members also carry an
  \<open>alive\<close> flag. Geometry, materials and the scene graph are presentation and are not
  modelled.
\<close>

record mesh =
  position :: vec3

record entity = mesh +
  alive :: bool

definition ENVELOPE_COLLISION_THRESHOLD :: real where "ENVELOPE_COLLISION_THRESHOLD = 3"
definition ENVELOPE_ARC_HEIGHT :: real where "ENVELOPE_ARC_HEIGHT = 15 / 10"
definition AGENT_COLLISION_RADIUS :: real where "AGENT_COLLISION_RADIUS = 7 / 10"
definition AGENT_SPEED :: real where "AGENT_SPEED = 4"
definition AGENT_SPAWN_INTERVAL :: real where "AGENT_SPAWN_INTERVAL = 3"
definition AGENT_SPAWN_DISTANCE :: real where "AGENT_SPAWN_DISTANCE = 50"
definition AGENT_MIN_SPAWN_INTERVAL :: real where "AGENT_MIN_SPAWN_INTERVAL = 1"
definition PANIC_POINT_COLLECT_RADIUS :: real where "PANIC_POINT_COLLECT_RADIUS = 12 / 10"
definition HOUSE_SPACING_Z :: real where "HOUSE_SPACING_Z = 6"
definition HOUSE_SPAWN_DISTANCE :: real where "HOUSE_SPAWN_DISTANCE = 80"
definition HOUSE_CLEANUP_DISTANCE :: real where "HOUSE_CLEANUP_DISTANCE = 20"
definition HOUSE_SHAKE_DURATION :: real where "HOUSE_SHAKE_DURATION = 3 / 10"
definition HOUSE_SHAKE_INTENSITY :: real where "HOUSE_SHAKE_INTENSITY = 15 / 100"
definition HOUSE_FLASH_DURATION :: real where "HOUSE_FLASH_DURATION = 2 / 10"
definition STREET_WIDTH :: real where "STREET_WIDTH = 10"
definition STREET_HOUSE_OFFSET_X :: real where "STREET_HOUSE_OFFSET_X = 7"
definition STREET_SEGMENT_LENGTH :: real where "STREET_SEGMENT_LENGTH = 40"

subsection \<open>House (entities/House.js)\<close>

datatype house_side = Left | Right

record house = mesh +
  isHit :: bool
  side :: house_side
  shakeTimer :: real
  flashTimer :: real
  baseX :: real

text \<open>
  \<open>Math.random()\<close> is an oracle \<open>rnd\<close> indexed by the number of calls made so far;
  a function that draws random numbers takes that count and returns the new one.
\<close>

type_synonym rand = "nat \<Rightarrow> real"

text \<open>
  \<open>new House(x, z, side)\<close> draws two random numbers, for the body colour and for the
  roof colour. Colours are presentation and are not modelled, but the two draws are
  counted.
\<close>

definition new_House :: "rand \<Rightarrow> real \<Rightarrow> real \<Rightarrow> house_side \<Rightarrow> nat \<Rightarrow> house \<times> nat" where
  "new_House rnd x z sd n =
     (\<lparr>position = \<lparr>px = x, py = 0, pz = z\<rparr>,
       isHit = False,
       side = sd,
       shakeTimer = 0,
       flashTimer = 0,
       baseX = x\<rparr>,
      n + 2)"

definition hit :: "house \<Rightarrow> house" where
  "hit h =
     (if isHit h then h
      else h\<lparr>isHit := True,
             shakeTimer := HOUSE_SHAKE_DURATION,
             flashTimer := HOUSE_FLASH_DURATION\<rparr>)"

definition House_update :: "rand \<Rightarrow> real \<Rightarrow> house \<times> nat \<Rightarrow> house \<times> nat" where
  "House_update rnd delta hn =
     (let h = fst hn; n = snd hn;
          (h1, n1) =
            (if shakeTimer h > 0 then
               (let t = shakeTimer h - delta;
                    intensity = HOUSE_SHAKE_INTENSITY * (t / HOUSE_SHAKE_DURATION);
                    x1 = baseX h + (rnd n - 1 / 2) * intensity * 2;
                    x2 = (if t \<le> 0 then baseX h else x1)
                in (h\<lparr>shakeTimer := t, position := (position h)\<lparr>px := x2\<rparr>\<rparr>, n + 1))
             else (h, n));
          h2 =
            (if flashTimer h1 > 0 then h1\<lparr>flashTimer := flashTimer h1 - delta\<rparr> else h1)
      in (h2, n1))"

subsection \<open>Envelope (entities/Envelope.js)\<close>

record envelope = entity +
  direction :: vec3
  startPos :: vec3
  distanceTraveled :: real
  targetPos :: "vec3 option"
  totalFlightDist :: real

definition checkHouse :: "envelope \<Rightarrow> house \<Rightarrow> bool" where
  "checkHouse e h =
     (if \<not> alive e \<or> isHit h then False
      else
        (let dx = px (position e) - px (position h);
             dz = pz (position e) - pz (position h);
             dist = sqrt (dx * dx + dz * dz)
         in dist < ENVELOPE_COLLISION_THRESHOLD))"

subsection \<open>Agent (entities/Agent.js)\<close>

record agent = entity +
  hasCollided :: bool
  walkTime :: real

definition new_Agent :: "rand \<Rightarrow> real \<Rightarrow> real \<Rightarrow> nat \<Rightarrow> agent \<times> nat" where
  "new_Agent rnd x z n =
     (\<lparr>position = \<lparr>px = x, py = 0, pz = z\<rparr>,
       alive = True,
       hasCollided = False,
       walkTime = rnd n * pi * 2\<rparr>,
      n + 1)"

definition Agent_update :: "real \<Rightarrow> real \<Rightarrow> agent \<Rightarrow> agent" where
  "Agent_update delta playerZ a =
     (if \<not> alive a then a
      else
        (let z1 = pz (position a) + AGENT_SPEED * delta;
             w1 = walkTime a + delta * 8;
             a1 = a\<lparr>position := (position a)\<lparr>pz := z1, py := \<bar>sin w1\<bar> * (8 / 100)\<rparr>,
                    walkTime := w1\<rparr>
         in if z1 > playerZ + 10 then a1\<lparr>alive := False\<rparr> else a1))"

definition Agent_checkPlayer :: "agent \<Rightarrow> vec3 \<Rightarrow> bool" where
  "Agent_checkPlayer a playerPos =
     (if \<not> alive a \<or> hasCollided a then False
      else
        (let dx = px (position a) - px playerPos;
             dz = pz (position a) - pz playerPos;
             dist = sqrt (dx * dx + dz * dz)
         in dist < AGENT_COLLISION_RADIUS))"

subsection \<open>PanicPoint (entities/PanicPoint.js)\<close>

record panicPoint = entity +
  collected :: bool
  timeAlive :: real
  ppFlashTimer :: real

definition PanicPoint_checkPlayer :: "panicPoint \<Rightarrow> vec3 \<Rightarrow> bool" where
  "PanicPoint_checkPlayer p playerPos =
     (if collected p \<or> \<not> alive p then False
      else
        (let dx = px (position p) - px playerPos;
             dz = pz (position p) - pz playerPos;
             dist = sqrt (dx * dx + dz * dz)
         in dist < PANIC_POINT_COLLECT_RADIUS))"

section \<open>StreetGenerator (systems/StreetGenerator.js)\<close>

text \<open>
  The generator's gameplay state. The street-surface meshes and the shared materials
  are presentation; of the surface only the bookkeeping field \<open>_lastStreetEnd\<close> is
  kept.
\<close>

record StreetGenerator =
  houses :: "house list"
  agents :: "agent list"
  generatedZ :: real
  lastStreetEnd :: real
  agentTimer :: real

definition generateRow :: "rand \<Rightarrow> real \<Rightarrow> StreetGenerator \<times> nat \<Rightarrow> StreetGenerator \<times> nat" where
  "generateRow rnd z sn =
     (let sg = fst sn; n = snd sn;
          l = (if rnd n > 2 / 10
               then (let hm = new_House rnd (- STREET_HOUSE_OFFSET_X) z Left (n + 1)
                     in (sg\<lparr>houses := houses sg @ [fst hm]\<rparr>, snd hm))
               else (sg, n + 1));
          r = (if rnd (snd l) > 2 / 10
               then (let hm = new_House rnd STREET_HOUSE_OFFSET_X z Right (snd l + 1)
                     in ((fst l)\<lparr>houses := houses (fst l) @ [fst hm]\<rparr>, snd hm))
               else (fst l, snd l + 1))
      in r)"

text \<open>
  The loop \<open>while (this._generatedZ > limit) { this._generateRow(this._generatedZ);
  this._generatedZ -= HOUSE.SPACING_Z; }\<close>, which \<open>_generateInitial\<close> runs with the
  limit \<open>-HOUSE.SPAWN_DISTANCE\<close> and \<open>update\<close> with \<open>playerZ - HOUSE.SPAWN_DISTANCE\<close>.
\<close>

function generate_rows :: "rand \<Rightarrow> real \<Rightarrow> StreetGenerator \<times> nat \<Rightarrow> StreetGenerator \<times> nat" where
  "generate_rows rnd limit sn =
     (if generatedZ (fst sn) > limit then
        generate_rows rnd limit
          (let r = generateRow rnd (generatedZ (fst sn)) sn
           in ((fst r)\<lparr>generatedZ := generatedZ (fst r) - HOUSE_SPACING_Z\<rparr>, snd r))
      else sn)"
  by pat_completeness auto
termination
proof (relation "measure (\<lambda>(rnd, limit, sn). nat \<lceil>(generatedZ (fst sn) - limit) / 6\<rceil>)")
  show "wf (measure (\<lambda>(rnd, limit, sn). nat \<lceil>(generatedZ (fst sn) - limit) / 6\<rceil>))"
    by simp
next
  fix rnd :: rand and limit :: real and sn :: "StreetGenerator \<times> nat"
  assume a: "limit < generatedZ (fst sn)"
  define g where "g = generatedZ (fst sn)"
  have keep: "generatedZ (fst (generateRow rnd g sn)) = g"
    by (simp add: generateRow_def Let_def g_def)
  have e: "(g - 6 - limit) / 6 = (g - limit) / 6 - 1"
    by (simp add: field_simps)
  have "\<lceil>(g - 6 - limit) / 6\<rceil> = \<lceil>(g - limit) / 6\<rceil> - 1"
    unfolding e by (rule ceiling_diff_one)
  moreover have "\<lceil>(g - limit) / 6\<rceil> > 0"
    using a by (simp add: g_def)
  ultimately have "nat \<lceil>(g - 6 - limit) / 6\<rceil> < nat \<lceil>(g - limit) / 6\<rceil>"
    by linarith
  then show "((rnd, limit,
               let r = generateRow rnd (generatedZ (fst sn)) sn
               in ((fst r)\<lparr>generatedZ := generatedZ (fst r) - HOUSE_SPACING_Z\<rparr>, snd r)),
              rnd, limit, sn)
             \<in> measure (\<lambda>(rnd, limit, sn). nat \<lceil>(generatedZ (fst sn) - limit) / 6\<rceil>)"
    using keep by (simp add: Let_def HOUSE_SPACING_Z_def g_def)
qed

declare generate_rows.simps [simp del]

definition generateInitial :: "rand \<Rightarrow> StreetGenerator \<times> nat \<Rightarrow> StreetGenerator \<times> nat" where
  "generateInitial rnd sn = generate_rows rnd (- HOUSE_SPAWN_DISTANCE) sn"

text \<open>The field assignments that the constructor and \<open>reset()\<close> both make.\<close>

definition blank_StreetGenerator :: StreetGenerator where
  "blank_StreetGenerator = \<lparr>
     houses = [],
     agents = [],
     generatedZ = 10,
     lastStreetEnd = - HOUSE_SPAWN_DISTANCE - 20,
     agentTimer = AGENT_SPAWN_INTERVAL\<rparr>"

definition new_StreetGenerator :: "rand \<Rightarrow> nat \<Rightarrow> StreetGenerator \<times> nat" where
  "new_StreetGenerator rnd n = generateInitial rnd (blank_StreetGenerator, n)"

definition StreetGenerator_reset :: "rand \<Rightarrow> StreetGenerator \<times> nat \<Rightarrow> StreetGenerator \<times> nat" where
  "StreetGenerator_reset rnd sn =
     generateInitial rnd
       ((fst sn)\<lparr>houses := [],
                 agents := [],
                 generatedZ := 10,
                 lastStreetEnd := - HOUSE_SPAWN_DISTANCE - 20,
                 agentTimer := AGENT_SPAWN_INTERVAL\<rparr>,
        snd sn)"

fun update_houses :: "rand \<Rightarrow> real \<Rightarrow> house list \<Rightarrow> nat \<Rightarrow> house list \<times> nat" where
  "update_houses rnd delta [] n = ([], n)"
| "update_houses rnd delta (h # hs) n =
     (let hn = House_update rnd delta (h, n);
          rest = update_houses rnd delta hs (snd hn)
      in (fst hn # fst rest, snd rest))"

definition spawnAgent :: "rand \<Rightarrow> real \<Rightarrow> StreetGenerator \<times> nat \<Rightarrow> StreetGenerator \<times> nat" where
  "spawnAgent rnd playerZ sn =
     (let sg = fst sn; n = snd sn;
          laneX = (rnd n - 1 / 2) * (STREET_WIDTH - 1);
          spawnZ = playerZ - AGENT_SPAWN_DISTANCE;
          am = new_Agent rnd laneX spawnZ (n + 1)
      in (sg\<lparr>agents := agents sg @ [fst am]\<rparr>, snd am))"

text \<open>
  \<open>_cleanup\<close> walks each array backwards and splices out the entries to drop, which
  keeps the others in order.
\<close>

definition cleanup :: "real \<Rightarrow> StreetGenerator \<Rightarrow> StreetGenerator" where
  "cleanup playerZ sg =
     sg\<lparr>houses := filter (\<lambda>h. \<not> pz (position h) > playerZ + HOUSE_CLEANUP_DISTANCE) (houses sg),
        agents := filter (\<lambda>a. alive a) (agents sg)\<rparr>"

text \<open>
  \<open>update(delta, playerZ)\<close>; \<open>speed\<close> is \<open>gameState.currentSpeed\<close>, which the agent
  spawner reads.
\<close>

definition StreetGenerator_update ::
  "rand \<Rightarrow> real \<Rightarrow> real \<Rightarrow> real \<Rightarrow> StreetGenerator \<times> nat \<Rightarrow> StreetGenerator \<times> nat" where
  "StreetGenerator_update rnd speed delta playerZ sn =
     (let r1 = generate_rows rnd (playerZ - HOUSE_SPAWN_DISTANCE) sn;
          sg1 = fst r1;
          sg2 = (if playerZ - 40 < lastStreetEnd sg1
                 then sg1\<lparr>lastStreetEnd := lastStreetEnd sg1 - STREET_SEGMENT_LENGTH\<rparr>
                 else sg1);
          hs = update_houses rnd delta (houses sg2) (snd r1);
          sg3 = sg2\<lparr>houses := fst hs, agentTimer := agentTimer sg2 - delta\<rparr>;
          r4 = (if agentTimer sg3 \<le> 0 then
                  (let sp = spawnAgent rnd playerZ (sg3, snd hs);
                       speedRatio = speed / 25;
                       interval = max AGENT_MIN_SPAWN_INTERVAL
                                      (AGENT_SPAWN_INTERVAL * (1 - speedRatio * (1 / 2)))
                   in ((fst sp)\<lparr>agentTimer :=
                          interval + (rnd (snd sp) - 1 / 2) * interval * (1 / 2)\<rparr>,
                       snd sp + 1))
                else (sg3, snd hs));
          sg5 = (fst r4)\<lparr>agents := map (Agent_update delta playerZ) (agents (fst r4))\<rparr>
      in (cleanup playerZ sg5, snd r4))"

definition getHousesInRange :: "StreetGenerator \<Rightarrow> real \<Rightarrow> real \<Rightarrow> house list" where
  "getHousesInRange sg z range' =
     filter (\<lambda>h. \<not> isHit h \<and> \<bar>pz (position h) - z\<bar> < range') (houses sg)"

definition getAgentsInRange :: "StreetGenerator \<Rightarrow> real \<Rightarrow> real \<Rightarrow> agent list" where
  "getAgentsInRange sg z range' =
     filter (\<lambda>a. alive a \<and> \<not> hasCollided a \<and> \<bar>pz (position a) - z\<bar> < range') (agents sg)"

text \<open>
  \<open>getHousesInRange\<close> returns a new array of references to the house objects. The
  caller mutates those objects, so the model also gives the result as the list of their
  indices in \<open>houses\<close>.
\<close>

definition housesInRange_idx :: "StreetGenerator \<Rightarrow> real \<Rightarrow> real \<Rightarrow> nat list" where
  "housesInRange_idx sg z range' =
     filter (\<lambda>i. \<not> isHit (houses sg ! i) \<and> \<bar>pz (position (houses sg ! i)) - z\<bar> < range')
       [0..<length (houses sg)]"

section \<open>The envelope-house collision pass (core/Game.js)\<close>

record Player = mesh +
  envelopes :: "envelope list"
  invincibleTimer :: real
  throwCooldown :: real

text \<open>
  A homeowner as \<open>new Homeowner(housePos, side)\<close> places it. Its run direction and
  its model are left out.
\<close>

record homeowner = entity +
  hwTimeAlive :: real
  dropTimer :: real

definition new_Homeowner :: "vec3 \<Rightarrow> house_side \<Rightarrow> homeowner" where
  "new_Homeowner housePos sd =
     \<lparr>position = \<lparr>px = (if sd = Left then px housePos + 2 else px housePos - 2),
                   py = 0,
                   pz = pz housePos\<rparr>,
      alive = True,
      hwTimeAlive = 0,
      dropTimer = 0\<rparr>"

text \<open>The events that the pass publishes, with their payloads.\<close>

datatype event =
    COMBO_CHANGED int
  | SCORE_CHANGED int int
  | HOUSE_HIT real real int
  | SPECTACLE_HIT int
  | SPECTACLE_COMBO int
  | SPECTACLE_STREAK int
  | HOMEOWNER_SPAWNED real real

fun is_HOUSE_HIT :: "event \<Rightarrow> bool" where
  "is_HOUSE_HIT (HOUSE_HIT x z c) = True"
| "is_HOUSE_HIT e = False"

text \<open>
  The part of the game that the pass reads and writes. \<open>emitted\<close> records every
  \<open>eventBus.emit\<close> of the pass in order. Of the subscribers only the spectacle's
  \<open>HOUSE_HIT\<close> handler writes modelled state (it calls \<open>gameState.addScore(0)\<close>); the
  others drive particles, sound and the HUD.
\<close>

record Game =
  gstate :: GameState
  player :: Player
  streetGen :: StreetGenerator
  homeowners :: "homeowner list"
  emitted :: "event list"

text \<open>
  The body of \<open>if (envelope.checkHouse(house)) { ... }\<close> for the envelope at index
  \<open>j\<close> of \<open>player.envelopes\<close> and the house at index \<open>i\<close> of \<open>streetGen.houses\<close>.
\<close>

definition envelope_hits_house :: "nat \<Rightarrow> nat \<Rightarrow> Game \<Rightarrow> Game" where
  "envelope_hits_house j i g =
     (let h = hit (houses (streetGen g) ! i);
          sg = (streetGen g)\<lparr>houses := (houses (streetGen g))[i := h]\<rparr>;
          es = envelopes (player g);
          pl = (player g)\<lparr>envelopes := es[j := (es ! j)\<lparr>alive := False\<rparr>]\<rparr>;
          s1 = (gstate g)\<lparr>housesHit := housesHit (gstate g) + 1\<rparr>;
          s2 = incrementCombo s1;
          ev1 = [COMBO_CHANGED (combo s2)];
          r3 = addScore 1 s2;
          s3 = snd r3;
          ev2 = [SCORE_CHANGED (score s3) (fst r3),
                 HOUSE_HIT (px (position h)) (pz (position h)) (combo s3)];
          s4 = snd (addScore 0 s3);
          ev3 = [SPECTACLE_HIT (combo s4)]
                @ (if combo s4 \<ge> 3 then [SPECTACLE_COMBO (combo s4)] else [])
                @ (if combo s4 \<ge> 5 then [SPECTACLE_STREAK (combo s4)] else []);
          hw = new_Homeowner (position h) (side h);
          ev4 = [HOMEOWNER_SPAWNED (px (position h)) (pz (position h))]
      in g\<lparr>gstate := s4,
            player := pl,
            streetGen := sg,
            homeowners := homeowners g @ [hw],
            emitted := emitted g @ ev1 @ ev2 @ ev3 @ ev4\<rparr>)"

text \<open>The inner loop over \<open>nearbyHouses\<close>; a hit ends it (\<open>break\<close>).\<close>

fun scan_houses :: "nat \<Rightarrow> nat list \<Rightarrow> Game \<Rightarrow> Game" where
  "scan_houses j [] g = g"
| "scan_houses j (i # rest) g =
     (if isHit (houses (streetGen g) ! i) then scan_houses j rest g
      else if checkHouse (envelopes (player g) ! j) (houses (streetGen g) ! i)
           then envelope_hits_house j i g
      else scan_houses j rest g)"

text \<open>The outer loop over \<open>player.envelopes\<close>.\<close>

fun scan_envelopes :: "nat list \<Rightarrow> nat list \<Rightarrow> Game \<Rightarrow> Game" where
  "scan_envelopes [] nearby g = g"
| "scan_envelopes (j # js) nearby g =
     scan_envelopes js nearby
       (if \<not> alive (envelopes (player g) ! j) then g else scan_houses j nearby g)"

definition checkEnvelopeHits :: "Game \<Rightarrow> Game" where
  "checkEnvelopeHits g =
     (let playerZ = pz (position (player g));
          nearbyHouses = housesInRange_idx (streetGen g) playerZ 50
      in scan_envelopes [0..<length (envelopes (player g))] nearbyHouses g)"

text \<open>Counts used to state what a pass changes.\<close>

definition count_HOUSE_HIT :: "Game \<Rightarrow> nat" where
  "count_HOUSE_HIT g = length (filter is_HOUSE_HIT (emitted g))"

definition count_hit_houses :: "Game \<Rightarrow> nat" where
  "count_hit_houses g = length (filter isHit (houses (streetGen g)))"

definition count_live_envelopes :: "Game \<Rightarrow> nat" where
  "count_live_envelopes g = length (filter alive (envelopes (player g)))"

text \<open>
  What every pass keeps: the two arrays keep their lengths, and the number of
  \<open>HOUSE_HIT\<close> events published equals both the number of houses newly hit and the
  number of envelopes newly retired.
\<close>

definition pass_rel :: "Game \<Rightarrow> Game \<Rightarrow> bool" where
  "pass_rel g g' =
     (length (houses (streetGen g')) = length (houses (streetGen g))
      \<and> length (envelopes (player g')) = length (envelopes (player g))
      \<and> count_HOUSE_HIT g' + count_hit_houses g = count_HOUSE_HIT g + count_hit_houses g'
      \<and> count_HOUSE_HIT g' + count_live_envelopes g' = count_HOUSE_HIT g + count_live_envelopes g)"

section \<open>Near-miss slow motion (systems/SpectacleSystem.js, gameplay/Player.js)\<close>

definition SPECTACLE_NEAR_MISS_SLOWMO_FACTOR :: real where
  "SPECTACLE_NEAR_MISS_SLOWMO_FACTOR = 7 / 10"
definition SPECTACLE_NEAR_MISS_SLOWMO_DURATION :: real where
  "SPECTACLE_NEAR_MISS_SLOWMO_DURATION = 1 / 10"

text \<open>
  The spectacle fields that the slow motion uses. Particles, flashes, shake and camera
  pulses do not touch them.
\<close>

record Spectacle =
  lastPlayerPos :: "vec3 option"
  slowMoTimer :: real
  slowMoDuration :: real
  slowMoOriginalSpeed :: real

definition onNearMiss :: "Spectacle \<times> GameState \<Rightarrow> Spectacle \<times> GameState" where
  "onNearMiss st =
     (let sp = fst st; gs = snd st in
      if lastPlayerPos sp = None then st
      else if slowMoTimer sp \<le> 0 then
        (sp\<lparr>slowMoOriginalSpeed := currentSpeed gs,
            slowMoTimer := SPECTACLE_NEAR_MISS_SLOWMO_DURATION,
            slowMoDuration := SPECTACLE_NEAR_MISS_SLOWMO_DURATION\<rparr>,
         gs\<lparr>currentSpeed := currentSpeed gs * SPECTACLE_NEAR_MISS_SLOWMO_FACTOR\<rparr>)
      else st)"

text \<open>
  \<open>update(delta, playerPos, envelopes)\<close>, reduced to the stored player position and
  the slow-motion recovery.
\<close>

definition Spectacle_update ::
  "real \<Rightarrow> vec3 option \<Rightarrow> Spectacle \<times> GameState \<Rightarrow> Spectacle \<times> GameState" where
  "Spectacle_update delta playerPos st =
     (let sp = fst st; gs = snd st;
          sp1 = (case playerPos of None \<Rightarrow> sp | Some p \<Rightarrow> sp\<lparr>lastPlayerPos := Some p\<rparr>)
      in if slowMoTimer sp1 > 0 then
           (let sp2 = sp1\<lparr>slowMoTimer := slowMoTimer sp1 - delta\<rparr>
            in if slowMoTimer sp2 \<le> 0
               then (sp2, gs\<lparr>currentSpeed := slowMoOriginalSpeed sp2\<rparr>)
               else (sp2, gs))
         else (sp1, gs))"

text \<open>The block of \<open>Player.update\<close> that raises the speed over time.\<close>

definition Player_update_speed :: "real \<Rightarrow> GameState \<Rightarrow> GameState" where
  "Player_update_speed delta gs =
     (if currentSpeed gs < GAMEPLAY_MAX_SPEED then
        (let v = currentSpeed gs + GAMEPLAY_SPEED_INCREASE_RATE * delta
         in gs\<lparr>currentSpeed := (if v > GAMEPLAY_MAX_SPEED then GAMEPLAY_MAX_SPEED else v)\<rparr>)
      else gs)"

text \<open>
  What one frame of \<open>Game.animate\<close> does to the speed and the slow motion, in the
  frame's order: \<open>player.update\<close> (which returns early while the model is not ready),
  the near-miss events of the agent pass, then \<open>spectacle.update\<close>. With \<open>f_ready\<close>
  false and no near miss, a frame is \<open>spectacle.update\<close> alone, which is what is left
  of the frame in which a near miss has just arrived.
\<close>

record frame =
  f_delta :: real
  f_ready :: bool
  f_nearMisses :: nat
  f_playerPos :: vec3

definition slowmo_frame :: "frame \<Rightarrow> Spectacle \<times> GameState \<Rightarrow> Spectacle \<times> GameState" where
  "slowmo_frame f st =
     (let gs1 = (if f_ready f then Player_update_speed (f_delta f) (snd st) else snd st);
          st2 = (onNearMiss ^^ f_nearMisses f) (fst st, gs1)
      in Spectacle_update (f_delta f) (Some (f_playerPos f)) st2)"

text \<open>
  Runs frames up to and including the first one at whose end the slow-motion timer is
  no longer positive; \<open>None\<close> when no frame of the list ends the slow motion.
\<close>

fun run_until_recovery ::
  "frame list \<Rightarrow> Spectacle \<times> GameState \<Rightarrow> (Spectacle \<times> GameState) option" where
  "run_until_recovery [] st = None"
| "run_until_recovery (f # fs) st =
     (let st1 = slowmo_frame f st
      in if slowMoTimer (fst st1) \<le> 0 then Some st1 else run_until_recovery fs st1)"

section \<open>EventBus (core/EventBus.js)\<close>

text \<open>
  \<open>listeners\<close> is a plain object. Reading \<open>listeners[event]\<close> gives the array stored
  under that name, or \<open>undefined\<close>, or, for a name that every object inherits from
  \<open>Object.prototype\<close>, the inherited value, which is truthy and is not an array.
\<close>

definition object_prototype_keys :: "string list" where
  "object_prototype_keys =
     [''constructor'', ''hasOwnProperty'', ''isPrototypeOf'', ''propertyIsEnumerable'',
      ''toLocaleString'', ''toString'', ''valueOf'', ''__proto__'',
      ''__defineGetter__'', ''__defineSetter__'', ''__lookupGetter__'', ''__lookupSetter__'']"

datatype 'h slot = Undefined | Inherited | Arr "'h list"

record 'h EventBus =
  listeners :: "string \<Rightarrow> 'h list option"

definition new_EventBus :: "'h EventBus" where
  "new_EventBus = \<lparr>listeners = (\<lambda>k. None)\<rparr>"

definition lookup :: "'h EventBus \<Rightarrow> string \<Rightarrow> 'h slot" where
  "lookup b event =
     (case listeners b event of
        Some cbs \<Rightarrow> Arr cbs
      | None \<Rightarrow> if event \<in> set object_prototype_keys then Inherited else Undefined)"

datatype js_error = TypeError

text \<open>
  Callbacks are identified by values of type \<open>'h\<close> (\<open>off\<close> compares them with
  \<open>!==\<close>). \<open>on\<close> and \<open>off\<close> return the bus, or fail where the source calls a method
  that the value read from \<open>listeners\<close> does not have.
\<close>

definition on :: "string \<Rightarrow> 'h \<Rightarrow> 'h EventBus \<Rightarrow> js_error + 'h EventBus" where
  "on event callback b =
     (case lookup b event of
        Undefined \<Rightarrow> Inr (b\<lparr>listeners := (listeners b)(event \<mapsto> [callback])\<rparr>)
      | Arr cbs \<Rightarrow> Inr (b\<lparr>listeners := (listeners b)(event \<mapsto> cbs @ [callback])\<rparr>)
      | Inherited \<Rightarrow> Inl TypeError)"

definition off :: "string \<Rightarrow> 'h \<Rightarrow> 'h EventBus \<Rightarrow> js_error + 'h EventBus" where
  "off event callback b =
     (case lookup b event of
        Undefined \<Rightarrow> Inr b
      | Arr cbs \<Rightarrow>
          Inr (b\<lparr>listeners := (listeners b)(event \<mapsto> filter (\<lambda>cb. cb \<noteq> callback) cbs)\<rparr>)
      | Inherited \<Rightarrow> Inl TypeError)"

definition removeAll :: "'h EventBus \<Rightarrow> 'h EventBus" where
  "removeAll b = b\<lparr>listeners := (\<lambda>k. None)\<rparr>"

text \<open>
  What the callbacks run on: the program state \<open>state\<close> they read and write, the
  console, and \<open>calls\<close>, the callbacks invoked so far in order (kept for the
  statements below; the program has no such field).
\<close>

record ('h, 'st, 'e) world =
  state :: 'st
  console :: "(string \<times> 'e) list"
  calls :: "'h list"

text \<open>
  \<open>impl cb data st\<close> runs callback \<open>cb\<close>: it returns the state when the callback
  ends and, when it ends by throwing, the value thrown.
\<close>

type_synonym ('h, 'd, 'st, 'e) impl = "'h \<Rightarrow> 'd \<Rightarrow> 'st \<Rightarrow> 'e option \<times> 'st"

text \<open>
  \<open>forEach\<close> with the \<open>try\<close>/\<open>catch\<close> around each call. \<open>forEach\<close> visits the
  elements that the array had when it started, so a callback that subscribes or
  unsubscribes does not change whom this delivery reaches.
\<close>

fun deliver ::
  "('h, 'd, 'st, 'e) impl \<Rightarrow> string \<Rightarrow> 'h list \<Rightarrow> 'd \<Rightarrow> ('h, 'st, 'e) world
     \<Rightarrow> ('h, 'st, 'e) world" where
  "deliver impl event [] d w = w"
| "deliver impl event (cb # cbs) d w =
     (let r = impl cb d (state w);
          w1 = w\<lparr>state := snd r, calls := calls w @ [cb]\<rparr>;
          w2 = (case fst r of
                  None \<Rightarrow> w1
                | Some err \<Rightarrow> w1\<lparr>console := console w1 @ [(event, err)]\<rparr>)
      in deliver impl event cbs d w2)"

text \<open>\<open>emit\<close> returns the error it throws, if any, and the world it leaves.\<close>

definition emit ::
  "('h, 'd, 'st, 'e) impl \<Rightarrow> string \<Rightarrow> 'd \<Rightarrow> 'h EventBus \<Rightarrow> ('h, 'st, 'e) world
     \<Rightarrow> js_error option \<times> ('h, 'st, 'e) world" where
  "emit impl event d b w =
     (case lookup b event of
        Undefined \<Rightarrow> (None, w)
      | Arr cbs \<Rightarrow> (None, deliver impl event cbs d w)
      | Inherited \<Rightarrow> (Some TypeError, w))"

text \<open>Subscribing a list of callbacks to one event, first to last.\<close>

fun subscribe :: "string \<Rightarrow> 'h list \<Rightarrow> 'h EventBus \<Rightarrow> js_error + 'h EventBus" where
  "subscribe event [] b = Inr b"
| "subscribe event (cb # cbs) b =
     (case on event cb b of Inl err \<Rightarrow> Inl err | Inr b1 \<Rightarrow> subscribe event cbs b1)"

definition registered :: "'h EventBus \<Rightarrow> string \<Rightarrow> 'h list" where
  "registered b event = (case listeners b event of None \<Rightarrow> [] | Some cbs \<Rightarrow> cbs)"

section \<open>Example data\<close>

text \<open>An envelope in flight at position \<open>p\<close>, thrown straight ahead from the origin.\<close>

definition example_envelope :: "vec3 \<Rightarrow> envelope" where
  "example_envelope p =
     \<lparr>position = p,
      alive = True,
      direction = \<lparr>px = 0, py = 0, pz = - 1\<rparr>,
      startPos = \<lparr>px = 0, py = 1, pz = 0\<rparr>,
      distanceTraveled = - pz p,
      targetPos = None,
      totalFlightDist = 0\<rparr>"

text \<open>
  A game with the player at the origin, one row of two houses twenty units ahead and
  two envelopes in the air next to the left house.
\<close>

definition example_game :: Game where
  "example_game =
     \<lparr>gstate = (new_GameState None)\<lparr>started := True\<rparr>,
      player = \<lparr>position = \<lparr>px = 0, py = 0, pz = 0\<rparr>,
                envelopes = [example_envelope \<lparr>px = - 7, py = 1, pz = - 20\<rparr>,
                             example_envelope \<lparr>px = - 6, py = 5 / 2, pz = - 19\<rparr>],
                invincibleTimer = 0,
                throwCooldown = 0\<rparr>,
      streetGen = \<lparr>houses = [fst (new_House (\<lambda>n. 1 / 2) (- 7) (- 20) Left 0),
                             fst (new_House (\<lambda>n. 1 / 2) 7 (- 20) Right 0)],
                   agents = [],
                   generatedZ = - 80,
                   lastStreetEnd = - 100,
                   agentTimer = 3\<rparr>,
      homeowners = [],
      emitted = []\<rparr>"

text \<open>
  A spectacle that has seen one frame and has no slow motion running, and two frames of
  a twentieth of a second each, the first with a further near-miss event.
\<close>

definition example_spectacle :: Spectacle where
  "example_spectacle =
     \<lparr>lastPlayerPos = Some \<lparr>px = 0, py = 0, pz = 0\<rparr>,
      slowMoTimer = 0,
      slowMoDuration = 0,
      slowMoOriginalSpeed = 0\<rparr>"

definition example_frames :: "frame list" where
  "example_frames =
     [\<lparr>f_delta = 1 / 20, f_ready = True, f_nearMisses = 1,
       f_playerPos = \<lparr>px = 0, py = 0, pz = - 1\<rparr>\<rparr>,
      \<lparr>f_delta = 1 / 20, f_ready = True, f_nearMisses = 0,
       f_playerPos = \<lparr>px = 0, py = 0, pz = - 2\<rparr>\<rparr>]"

text \<open>
  Callbacks named by numbers over a state that lists the callbacks that ran: callback 2
  throws after it has written the state, the others return normally.
\<close>

definition example_impl :: "(nat, unit, nat list, string) impl" where
  "example_impl cb d st = (if cb = 2 then Some ''boom'' else None, st @ [cb])"

definition example_world :: "(nat, nat list, string) world" where
  "example_world = \<lparr>state = [], console = [], calls = []\<rparr>"

section \<open>Properties of GameState\<close>

lemmas gameplay_consts =
  GAMEPLAY_AUTO_SPEED_def GAMEPLAY_SPEED_INCREASE_RATE_def GAMEPLAY_MAX_SPEED_def
  GAMEPLAY_LIVES_def COMBO_TIMEOUT_MS_def COMBO_MULTIPLIER_CAP_def

lemma addScore_fst:
  "fst (addScore b s) = b * max 1 (min (combo s) COMBO_MULTIPLIER_CAP)"
  by (simp add: addScore_def Let_def)

lemma addScore_score:
  "score (snd (addScore b s)) = score s + b * max 1 (min (combo s) COMBO_MULTIPLIER_CAP)"
  by (simp add: addScore_def Let_def)

text \<open>
  C1. \<open>addScore(base)\<close> returns \<open>base * max(1, min(combo, MULTIPLIER_CAP))\<close> and adds
  exactly that amount to \<open>score\<close>, for every combo and base; the multiplier is never
  above the cap, and with the cap at 10 a combo of 15 gives the multiplier 10.
\<close>

theorem addScore_multiplier_capped:
  "fst (addScore base s) = base * max 1 (min (combo s) COMBO_MULTIPLIER_CAP)
   \<and> score (snd (addScore base s)) = score s + fst (addScore base s)
   \<and> max 1 (min (combo s) COMBO_MULTIPLIER_CAP) \<le> COMBO_MULTIPLIER_CAP
   \<and> COMBO_MULTIPLIER_CAP = 10
   \<and> fst (addScore base (s\<lparr>combo := 15\<rparr>)) = base * 10"
  by (simp add: addScore_fst addScore_score) (simp add: COMBO_MULTIPLIER_CAP_def)

text \<open>
  C3 as stated fails: \<open>loseLife()\<close> has no floor. After the call at one life
  (which leaves zero lives), a second call leaves \<open>-1\<close>.
\<close>

theorem loseLife_no_floor_counterexample:
  "fst (loseLife ((new_GameState None)\<lparr>lives := 1\<rparr>))
   \<and> lives (snd (loseLife ((new_GameState None)\<lparr>lives := 1\<rparr>))) = 0
   \<and> lives (snd (loseLife (snd (loseLife ((new_GameState None)\<lparr>lives := 1\<rparr>))))) < 0"
  by (simp add: loseLife_def new_GameState_def Let_def)

text \<open>
  C3, amended. \<open>loseLife()\<close> at one life returns \<open>true\<close> and leaves zero lives.
  It decrements unconditionally and reports whether the count is now at most zero, so
  at zero lives it returns \<open>true\<close> again and leaves \<open>-1\<close>.
\<close>

theorem loseLife_decrements:
  "fst (loseLife (s\<lparr>lives := 1\<rparr>))
   \<and> lives (snd (loseLife (s\<lparr>lives := 1\<rparr>))) = 0
   \<and> fst (loseLife (s\<lparr>lives := 0\<rparr>))
   \<and> lives (snd (loseLife (s\<lparr>lives := 0\<rparr>))) = - 1
   \<and> loseLife s = (lives s \<le> 1, s\<lparr>lives := lives s - 1\<rparr>)"
  by (simp add: loseLife_def Let_def)

subsection \<open>The combo timer\<close>














subsection \<open>The combo invariant\<close>

lemma combo_inv_strong_new: "combo_inv_strong (new_GameState stored)"
  by (simp add: combo_inv_strong_def combo_inv_def new_GameState_def)

lemma combo_inv_strong_step:
  "combo_inv_strong s \<Longrightarrow> combo_inv_strong (apply_op x s)"
  by (cases x)
     (auto simp: combo_inv_strong_def combo_inv_def reset_def addScore_def Let_def
                 incrementCombo_def resetCombo_def updateComboTimer_def loseLife_def
                 COMBO_TIMEOUT_MS_def)

lemma combo_inv_strong_run:
  "combo_inv_strong s \<Longrightarrow> combo_inv_strong (run_ops ops s)"
  by (induction ops arbitrary: s) (simp_all add: combo_inv_strong_step)

text \<open>
  C5. Starting from the constructed state, after every sequence of GameState
  operations (\<open>reset\<close>, \<open>addScore\<close>, \<open>incrementCombo\<close>, \<open>resetCombo\<close>,
  \<open>updateComboTimer\<close>, \<open>loseLife\<close>) the combo is positive exactly when the combo
  timer is positive.
\<close>

theorem combo_positive_iff_timer_positive:
  "(combo (run_ops ops (new_GameState stored)) > 0)
     = (comboTimer (run_ops ops (new_GameState stored)) > 0)"
  using combo_inv_strong_run [OF combo_inv_strong_new, of ops stored]
  by (simp add: combo_inv_strong_def combo_inv_def)

subsection \<open>Restart\<close>

text \<open>
  C6. From every prior state, \<open>reset()\<close> puts \<open>score\<close>, \<open>lives\<close>, \<open>combo\<close>,
  \<open>currentSpeed\<close>, \<open>started\<close>, \<open>gameOver\<close> and the combo timer back to the values
  the constructor gives them and leaves \<open>bestScore\<close>, \<open>bestCombo\<close> and \<open>isMuted\<close> as
  they were; with a best score of 50 before the restart and 10 points scored after it,
  the best score is still 50.
\<close>

theorem reset_preserves_best:
  "score (reset s) = 0 \<and> score (new_GameState stored) = 0
   \<and> lives (reset s) = 3 \<and> lives (new_GameState stored) = 3
   \<and> combo (reset s) = 0 \<and> combo (new_GameState stored) = 0
   \<and> currentSpeed (reset s) = 8 \<and> currentSpeed (new_GameState stored) = 8
   \<and> \<not> started (reset s) \<and> \<not> gameOver (reset s) \<and> comboTimer (reset s) = 0
   \<and> reset s = (new_GameState stored)
        \<lparr>bestScore := bestScore s, bestCombo := bestCombo s, isMuted := isMuted s\<rparr>
   \<and> bestScore (reset s) = bestScore s
   \<and> bestCombo (reset s) = bestCombo s
   \<and> isMuted (reset s) = isMuted s
   \<and> bestScore (snd (addScore 10 (reset (s\<lparr>bestScore := 50\<rparr>)))) = 50
   \<and> score (snd (addScore 10 (reset (s\<lparr>bestScore := 50\<rparr>)))) = 10"
  by (simp add: reset_def new_GameState_def or_zero_def addScore_def Let_def gameplay_consts)

section \<open>Properties of the collision predicates\<close>


lemma sqrt_less_3: "(sqrt v < 3) = (v < 9)"
proof -
  have "sqrt v < sqrt 9 \<longleftrightarrow> v < 9" by (rule real_sqrt_less_iff)
  moreover have "sqrt 9 = 3" using real_sqrt_abs2 [of 3] by simp
  ultimately show ?thesis by simp
qed

text \<open>
  C10. The three collision predicates (envelope against house, agent against player,
  panic point against player) compare the Euclidean distance in the XZ plane with
  their threshold and never read a Y coordinate: changing the Y coordinates of both
  positions changes no result. An envelope at the top of its arc, directly above the
  spot of an unhit house, registers a hit.
\<close>

theorem collision_ignores_height:
  "checkHouse (e\<lparr>position := (position e)\<lparr>py := y1\<rparr>\<rparr>) (h\<lparr>position := (position h)\<lparr>py := y2\<rparr>\<rparr>)
     = checkHouse e h
   \<and> Agent_checkPlayer (a\<lparr>position := (position a)\<lparr>py := y1\<rparr>\<rparr>) (p\<lparr>py := y2\<rparr>)
     = Agent_checkPlayer a p
   \<and> PanicPoint_checkPlayer (c\<lparr>position := (position c)\<lparr>py := y1\<rparr>\<rparr>) (p\<lparr>py := y2\<rparr>)
     = PanicPoint_checkPlayer c p
   \<and> checkHouse e h
     = (alive e \<and> \<not> isHit h
        \<and> sqrt ((px (position e) - px (position h)) * (px (position e) - px (position h))
               + (pz (position e) - pz (position h)) * (pz (position e) - pz (position h))) < 3)
   \<and> Agent_checkPlayer a p
     = (alive a \<and> \<not> hasCollided a
        \<and> sqrt ((px (position a) - px p) * (px (position a) - px p)
               + (pz (position a) - pz p) * (pz (position a) - pz p)) < 7 / 10)
   \<and> PanicPoint_checkPlayer c p
     = (\<not> collected c \<and> alive c
        \<and> sqrt ((px (position c) - px p) * (px (position c) - px p)
               + (pz (position c) - pz p) * (pz (position c) - pz p)) < 12 / 10)
   \<and> checkHouse
        (e\<lparr>alive := True, position := \<lparr>px = - 7, py = 1 + ENVELOPE_ARC_HEIGHT, pz = - 20\<rparr>\<rparr>)
        (h\<lparr>isHit := False, position := \<lparr>px = - 7, py = 0, pz = - 20\<rparr>\<rparr>)"
  by (simp add: checkHouse_def Agent_checkPlayer_def PanicPoint_checkPlayer_def Let_def
        ENVELOPE_COLLISION_THRESHOLD_def AGENT_COLLISION_RADIUS_def
        PANIC_POINT_COLLECT_RADIUS_def)

theorem collision_ignores_height_witness:
  "checkHouse
     ((example_envelope \<lparr>px = - 6, py = 1, pz = - 19\<rparr>)
        \<lparr>position := (position (example_envelope \<lparr>px = - 6, py = 1, pz = - 19\<rparr>))
           \<lparr>py := 5 / 2\<rparr>\<rparr>)
     ((fst (new_House (\<lambda>n. 1 / 2) (- 7) (- 20) Left 0))
        \<lparr>position := (position (fst (new_House (\<lambda>n. 1 / 2) (- 7) (- 20) Left 0)))
           \<lparr>py := 9\<rparr>\<rparr>)
   \<and> checkHouse (example_envelope \<lparr>px = - 6, py = 1, pz = - 19\<rparr>)
       (fst (new_House (\<lambda>n. 1 / 2) (- 7) (- 20) Left 0))"
proof -
  let ?e = "example_envelope \<lparr>px = - 6, py = 1, pz = - 19\<rparr>"
  let ?h = "fst (new_House (\<lambda>n. 1 / 2) (- 7) (- 20) Left 0)"
  have low: "checkHouse ?e ?h"
    by (simp add: checkHouse_def example_envelope_def new_House_def Let_def
          ENVELOPE_COLLISION_THRESHOLD_def sqrt_less_3)
  have "checkHouse (?e\<lparr>position := (position ?e)\<lparr>py := 5 / 2\<rparr>\<rparr>)
          (?h\<lparr>position := (position ?h)\<lparr>py := 9\<rparr>\<rparr>) = checkHouse ?e ?h"
    by (rule conjunct1 [OF collision_ignores_height])
  with low show ?thesis
    by (simp only: simp_thms)
qed

section \<open>Properties of the envelope-house pass\<close>


lemma hit_isHit: "isHit (hit h)"
  by (simp add: hit_def)

lemma hit_already: "isHit h \<Longrightarrow> hit h = h"
  by (simp add: hit_def)

lemma scan_houses_miss:
  "(\<And>k. k \<in> set idxs \<Longrightarrow> isHit (houses (streetGen g) ! k)
        \<or> \<not> checkHouse (envelopes (player g) ! j) (houses (streetGen g) ! k))
   \<Longrightarrow> scan_houses j idxs g = g"
  by (induction idxs) auto

lemma scan_houses_first:
  "i \<in> set idxs \<Longrightarrow>
   \<not> isHit (houses (streetGen g) ! i) \<Longrightarrow>
   checkHouse (envelopes (player g) ! j) (houses (streetGen g) ! i) \<Longrightarrow>
   (\<And>k. k \<in> set idxs \<Longrightarrow> k \<noteq> i \<Longrightarrow>
        \<not> checkHouse (envelopes (player g) ! j) (houses (streetGen g) ! k)) \<Longrightarrow>
   scan_houses j idxs g = envelope_hits_house j i g"
  by (induction idxs) auto

lemma envelope_hits_house_fields:
  "houses (streetGen (envelope_hits_house j i g))
     = (houses (streetGen g))[i := hit (houses (streetGen g) ! i)]"
  "envelopes (player (envelope_hits_house j i g))
     = (envelopes (player g))[j := (envelopes (player g) ! j)\<lparr>alive := False\<rparr>]"
  "position (player (envelope_hits_house j i g)) = position (player g)"
  "length (homeowners (envelope_hits_house j i g)) = length (homeowners g) + 1"
  "length (filter is_HOUSE_HIT (emitted (envelope_hits_house j i g)))
     = length (filter is_HOUSE_HIT (emitted g)) + 1"
  by (simp_all add: envelope_hits_house_def Let_def)

text \<open>The index list names exactly the houses that \<open>getHousesInRange\<close> returns.\<close>

lemma getHousesInRange_idx:
  "getHousesInRange sg z r = map (\<lambda>i. houses sg ! i) (housesInRange_idx sg z r)"
proof -
  have "map (\<lambda>i. houses sg ! i) (housesInRange_idx sg z r)
      = filter (\<lambda>h. \<not> isHit h \<and> \<bar>pz (position h) - z\<bar> < r)
          (map (\<lambda>i. houses sg ! i) [0..<length (houses sg)])"
    by (simp add: housesInRange_idx_def filter_map comp_def)
  then show ?thesis
    by (simp add: getHousesInRange_def map_nth)
qed

lemma in_range_idx:
  "i < length (houses sg) \<Longrightarrow> \<not> isHit (houses sg ! i) \<Longrightarrow>
   \<bar>pz (position (houses sg ! i)) - z\<bar> < r \<Longrightarrow> i \<in> set (housesInRange_idx sg z r)"
  by (simp add: housesInRange_idx_def)

lemma idx_in_range_bound:
  "k \<in> set (housesInRange_idx sg z r) \<Longrightarrow> k < length (houses sg)"
  by (simp add: housesInRange_idx_def)

lemma checkHouse_hit: "\<not> checkHouse e (hit h)"
  by (simp add: checkHouse_def hit_def)



lemma filter_update_gain:
  "i < length xs \<Longrightarrow> \<not> P (xs ! i) \<Longrightarrow> P y \<Longrightarrow>
   length (filter P (xs[i := y])) = Suc (length (filter P xs))"
proof (induction xs arbitrary: i)
  case Nil
  then show ?case by simp
next
  case (Cons x xs)
  then show ?case by (cases i) auto
qed

lemma filter_update_loss:
  "i < length xs \<Longrightarrow> P (xs ! i) \<Longrightarrow> \<not> P y \<Longrightarrow>
   Suc (length (filter P (xs[i := y]))) = length (filter P xs)"
proof (induction xs arbitrary: i)
  case Nil
  then show ?case by simp
next
  case (Cons x xs)
  then show ?case by (cases i) auto
qed

lemma pass_rel_refl: "pass_rel g g"
  by (simp add: pass_rel_def)

lemma pass_rel_trans: "pass_rel a b \<Longrightarrow> pass_rel b c \<Longrightarrow> pass_rel a c"
  by (auto simp: pass_rel_def)

lemma pass_rel_hit:
  assumes "i < length (houses (streetGen g))" "\<not> isHit (houses (streetGen g) ! i)"
    "j < length (envelopes (player g))" "alive (envelopes (player g) ! j)"
  shows "pass_rel g (envelope_hits_house j i g)"
proof -
  have h: "length (filter isHit ((houses (streetGen g))[i := hit (houses (streetGen g) ! i)]))
      = Suc (length (filter isHit (houses (streetGen g))))"
    using assms(1,2) by (intro filter_update_gain) (simp_all add: hit_def)
  have e: "Suc (length (filter alive
        ((envelopes (player g))[j := (envelopes (player g) ! j)\<lparr>alive := False\<rparr>])))
      = length (filter alive (envelopes (player g)))"
    using assms(3,4) by (intro filter_update_loss) simp_all
  show ?thesis
    unfolding pass_rel_def count_HOUSE_HIT_def count_hit_houses_def count_live_envelopes_def
    using h e by (simp add: envelope_hits_house_def Let_def)
qed

lemma pass_rel_scan_houses:
  "(\<And>i. i \<in> set idxs \<Longrightarrow> i < length (houses (streetGen g))) \<Longrightarrow>
   j < length (envelopes (player g)) \<Longrightarrow> alive (envelopes (player g) ! j) \<Longrightarrow>
   pass_rel g (scan_houses j idxs g)"
  by (induction idxs) (auto simp: pass_rel_refl pass_rel_hit)

lemma pass_rel_scan_envelopes:
  "(\<And>i. i \<in> set idxs \<Longrightarrow> i < length (houses (streetGen g))) \<Longrightarrow>
   (\<And>j. j \<in> set js \<Longrightarrow> j < length (envelopes (player g))) \<Longrightarrow>
   pass_rel g (scan_envelopes js idxs g)"
proof (induction js arbitrary: g)
  case Nil
  show ?case by (simp add: pass_rel_refl)
next
  case (Cons j js)
  define g1 where
    "g1 = (if \<not> alive (envelopes (player g) ! j) then g else scan_houses j idxs g)"
  have step: "pass_rel g g1"
    unfolding g1_def using Cons.prems by (auto simp: pass_rel_refl intro: pass_rel_scan_houses)
  have "pass_rel g1 (scan_envelopes js idxs g1)"
  proof (rule Cons.IH)
    show "i < length (houses (streetGen g1))" if "i \<in> set idxs" for i
      using step Cons.prems(1) [OF that] by (simp add: pass_rel_def)
    show "k < length (envelopes (player g1))" if "k \<in> set js" for k
      using step Cons.prems(2) [of k] that by (simp add: pass_rel_def)
  qed
  with step have "pass_rel g (scan_envelopes js idxs g1)"
    by (rule pass_rel_trans)
  then show ?case by (simp add: g1_def)
qed

lemma pass_rel_checkEnvelopeHits: "pass_rel g (checkEnvelopeHits g)"
  unfolding checkEnvelopeHits_def Let_def
  by (rule pass_rel_scan_envelopes) (simp_all add: housesInRange_idx_def)

lemma abs_le_sqrt_sum:
  "\<bar>a\<bar> \<le> sqrt (a * a + b * b)" "\<bar>b\<bar> \<le> sqrt (a * a + b * b)"
proof -
  have "sqrt (a * a) \<le> sqrt (a * a + b * b)"
    by (rule real_sqrt_le_mono) simp
  then show "\<bar>a\<bar> \<le> sqrt (a * a + b * b)"
    by (simp only: real_sqrt_abs2)
  have "sqrt (b * b) \<le> sqrt (a * a + b * b)"
    by (rule real_sqrt_le_mono) simp
  then show "\<bar>b\<bar> \<le> sqrt (a * a + b * b)"
    by (simp only: real_sqrt_abs2)
qed

lemma checkHouse_near:
  assumes "checkHouse e h"
  shows "\<bar>px (position e) - px (position h)\<bar> < 3"
    and "\<bar>pz (position e) - pz (position h)\<bar> < 3"
proof -
  let ?dx = "px (position e) - px (position h)"
  let ?dz = "pz (position e) - pz (position h)"
  have d: "sqrt (?dx * ?dx + ?dz * ?dz) < 3"
    using assms
    by (simp add: checkHouse_def Let_def ENVELOPE_COLLISION_THRESHOLD_def split: if_splits)
  show "\<bar>?dx\<bar> < 3"
    using d abs_le_sqrt_sum(1) [of ?dx ?dz] by linarith
  show "\<bar>?dz\<bar> < 3"
    using d abs_le_sqrt_sum(2) [of ?dz ?dx] by linarith
qed

lemma checkHouse_separated:
  assumes "checkHouse e h"
    and "\<bar>px (position k) - px (position h)\<bar> \<ge> 6 \<or> \<bar>pz (position k) - pz (position h)\<bar> \<ge> 6"
  shows "\<not> checkHouse e k"
proof
  assume "checkHouse e k"
  from checkHouse_near [OF this] checkHouse_near [OF assms(1)] assms(2)
  show False by linarith
qed

lemma checkHouse_isHit: "isHit h \<Longrightarrow> \<not> checkHouse e h"
  by (simp add: checkHouse_def)

lemma two_envelopes_one_house:
  assumes es: "envelopes (player g) = [e1, e2]"
    and live: "alive e1" "alive e2"
    and i: "i < length (houses (streetGen g))"
    and unhit: "\<not> isHit (houses (streetGen g) ! i)"
    and near: "\<bar>pz (position (houses (streetGen g) ! i)) - pz (position (player g))\<bar> < 50"
    and over: "checkHouse e1 (houses (streetGen g) ! i)" "checkHouse e2 (houses (streetGen g) ! i)"
    and others: "\<forall>k < length (houses (streetGen g)). k \<noteq> i \<longrightarrow>
        \<not> checkHouse e1 (houses (streetGen g) ! k) \<and> \<not> checkHouse e2 (houses (streetGen g) ! k)"
  shows "length (filter is_HOUSE_HIT (emitted (checkEnvelopeHits g)))
           = length (filter is_HOUSE_HIT (emitted g)) + 1
         \<and> envelopes (player (checkEnvelopeHits g)) = [e1\<lparr>alive := False\<rparr>, e2]
         \<and> houses (streetGen (checkEnvelopeHits g))
             = (houses (streetGen g))[i := hit (houses (streetGen g) ! i)]
         \<and> isHit (houses (streetGen (checkEnvelopeHits g)) ! i)
         \<and> length (homeowners (checkEnvelopeHits g)) = length (homeowners g) + 1"
proof -
  define near_idx where
    "near_idx = housesInRange_idx (streetGen g) (pz (position (player g))) 50"
  define g1 where "g1 = envelope_hits_house 0 i g"
  have mem: "i \<in> set near_idx"
    unfolding near_idx_def using i unhit near by (rule in_range_idx)
  have bound: "k < length (houses (streetGen g))" if "k \<in> set near_idx" for k
    using that unfolding near_idx_def by (rule idx_in_range_bound)
  have first: "scan_houses 0 near_idx g = g1"
    unfolding g1_def
  proof (rule scan_houses_first [OF mem unhit])
    show "checkHouse (envelopes (player g) ! 0) (houses (streetGen g) ! i)"
      using over es by simp
    show "\<not> checkHouse (envelopes (player g) ! 0) (houses (streetGen g) ! k)"
      if "k \<in> set near_idx" "k \<noteq> i" for k
      using others bound [OF that(1)] that(2) es by simp
  qed
  have hs1: "houses (streetGen g1) = (houses (streetGen g))[i := hit (houses (streetGen g) ! i)]"
    and es1: "envelopes (player g1) = [e1\<lparr>alive := False\<rparr>, e2]"
    unfolding g1_def by (simp_all add: envelope_hits_house_fields es)
  have second: "scan_houses 1 near_idx g1 = g1"
  proof (rule scan_houses_miss)
    fix k assume k: "k \<in> set near_idx"
    show "isHit (houses (streetGen g1) ! k)
          \<or> \<not> checkHouse (envelopes (player g1) ! 1) (houses (streetGen g1) ! k)"
    proof (cases "k = i")
      case True
      then show ?thesis using i by (simp add: hs1 hit_isHit)
    next
      case False
      then show ?thesis using others bound [OF k] by (simp add: hs1 es1)
    qed
  qed
  have "checkEnvelopeHits g = scan_envelopes [0, 1] near_idx g"
    by (simp add: checkEnvelopeHits_def Let_def near_idx_def es upt_rec)
  also have "\<dots> = g1"
    using first second live es by (simp add: es1)
  finally have res: "checkEnvelopeHits g = g1" .
  show ?thesis
    unfolding res
    using i by (simp add: hs1 es1 hit_isHit hit_already)
       (simp add: g1_def envelope_hits_house_fields)
qed




text \<open>
  C2. A house goes from unhit to hit at most once. \<open>hit()\<close> on a house that is
  already hit changes nothing. In every collision pass the number of \<open>HOUSE_HIT\<close>
  events published equals the number of houses that went from unhit to hit and the
  number of envelopes retired. When the player has two live envelopes that both overlap
  the same unhit house within range, and every other unhit house stands at least six
  units from it along X or along Z (the generator puts the two sides fourteen units
  apart and the rows six), the pass publishes exactly one \<open>HOUSE_HIT\<close> event,
  retires the first envelope, leaves the second envelope alive, marks that one house
  hit and spawns one homeowner.
\<close>

theorem house_hit_once:
  "(isHit h \<longrightarrow> hit h = h) \<and> hit (hit h) = hit h \<and> isHit (hit h)
   \<and> count_HOUSE_HIT (checkEnvelopeHits g) + count_hit_houses g
       = count_HOUSE_HIT g + count_hit_houses (checkEnvelopeHits g)
   \<and> count_HOUSE_HIT (checkEnvelopeHits g) + count_live_envelopes (checkEnvelopeHits g)
       = count_HOUSE_HIT g + count_live_envelopes g
   \<and> (envelopes (player g) = [e1, e2] \<and> alive e1 \<and> alive e2
       \<and> i < length (houses (streetGen g))
       \<and> \<not> isHit (houses (streetGen g) ! i)
       \<and> \<bar>pz (position (houses (streetGen g) ! i)) - pz (position (player g))\<bar> < 50
       \<and> checkHouse e1 (houses (streetGen g) ! i)
       \<and> checkHouse e2 (houses (streetGen g) ! i)
       \<and> (\<forall>k < length (houses (streetGen g)). k \<noteq> i \<longrightarrow>
             isHit (houses (streetGen g) ! k)
             \<or> \<bar>px (position (houses (streetGen g) ! k))
                  - px (position (houses (streetGen g) ! i))\<bar> \<ge> 6
             \<or> \<bar>pz (position (houses (streetGen g) ! k))
                  - pz (position (houses (streetGen g) ! i))\<bar> \<ge> 6)
      \<longrightarrow> count_HOUSE_HIT (checkEnvelopeHits g) = count_HOUSE_HIT g + 1
          \<and> envelopes (player (checkEnvelopeHits g)) = [e1\<lparr>alive := False\<rparr>, e2]
          \<and> houses (streetGen (checkEnvelopeHits g))
              = (houses (streetGen g))[i := hit (houses (streetGen g) ! i)]
          \<and> isHit (houses (streetGen (checkEnvelopeHits g)) ! i)
          \<and> length (homeowners (checkEnvelopeHits g)) = length (homeowners g) + 1)"
proof (intro conjI impI)
  show "hit h = h" if "isHit h"
    using that by (rule hit_already)
  show "hit (hit h) = hit h"
    by (simp add: hit_already hit_isHit)
  show "isHit (hit h)"
    by (rule hit_isHit)
  show "count_HOUSE_HIT (checkEnvelopeHits g) + count_hit_houses g
       = count_HOUSE_HIT g + count_hit_houses (checkEnvelopeHits g)"
    using pass_rel_checkEnvelopeHits [of g] by (simp add: pass_rel_def)
  show "count_HOUSE_HIT (checkEnvelopeHits g) + count_live_envelopes (checkEnvelopeHits g)
       = count_HOUSE_HIT g + count_live_envelopes g"
    using pass_rel_checkEnvelopeHits [of g] by (simp add: pass_rel_def)
next
  assume a: "envelopes (player g) = [e1, e2] \<and> alive e1 \<and> alive e2
       \<and> i < length (houses (streetGen g))
       \<and> \<not> isHit (houses (streetGen g) ! i)
       \<and> \<bar>pz (position (houses (streetGen g) ! i)) - pz (position (player g))\<bar> < 50
       \<and> checkHouse e1 (houses (streetGen g) ! i)
       \<and> checkHouse e2 (houses (streetGen g) ! i)
       \<and> (\<forall>k < length (houses (streetGen g)). k \<noteq> i \<longrightarrow>
             isHit (houses (streetGen g) ! k)
             \<or> \<bar>px (position (houses (streetGen g) ! k))
                  - px (position (houses (streetGen g) ! i))\<bar> \<ge> 6
             \<or> \<bar>pz (position (houses (streetGen g) ! k))
                  - pz (position (houses (streetGen g) ! i))\<bar> \<ge> 6)"
  then have es: "envelopes (player g) = [e1, e2]"
    and live: "alive e1" "alive e2"
    and i: "i < length (houses (streetGen g))"
    and unhit: "\<not> isHit (houses (streetGen g) ! i)"
    and near: "\<bar>pz (position (houses (streetGen g) ! i)) - pz (position (player g))\<bar> < 50"
    and over: "checkHouse e1 (houses (streetGen g) ! i)" "checkHouse e2 (houses (streetGen g) ! i)"
    and apart: "\<forall>k < length (houses (streetGen g)). k \<noteq> i \<longrightarrow>
             isHit (houses (streetGen g) ! k)
             \<or> \<bar>px (position (houses (streetGen g) ! k))
                  - px (position (houses (streetGen g) ! i))\<bar> \<ge> 6
             \<or> \<bar>pz (position (houses (streetGen g) ! k))
                  - pz (position (houses (streetGen g) ! i))\<bar> \<ge> 6"
    by simp_all
  have others: "\<forall>k < length (houses (streetGen g)). k \<noteq> i \<longrightarrow>
        \<not> checkHouse e1 (houses (streetGen g) ! k) \<and> \<not> checkHouse e2 (houses (streetGen g) ! k)"
  proof (intro allI impI)
    fix k assume k: "k < length (houses (streetGen g))" "k \<noteq> i"
    show "\<not> checkHouse e1 (houses (streetGen g) ! k)
        \<and> \<not> checkHouse e2 (houses (streetGen g) ! k)"
    proof (cases "isHit (houses (streetGen g) ! k)")
      case True
      then show ?thesis by (simp add: checkHouse_isHit)
    next
      case False
      with apart k have sep:
        "\<bar>px (position (houses (streetGen g) ! k))
            - px (position (houses (streetGen g) ! i))\<bar> \<ge> 6
         \<or> \<bar>pz (position (houses (streetGen g) ! k))
            - pz (position (houses (streetGen g) ! i))\<bar> \<ge> 6"
        by blast
      show ?thesis
        using checkHouse_separated [OF over(1) sep] checkHouse_separated [OF over(2) sep]
        by (rule conjI)
    qed
  qed
  note sc = two_envelopes_one_house [OF es live i unhit near over others]
  show "count_HOUSE_HIT (checkEnvelopeHits g) = count_HOUSE_HIT g + 1"
    using sc by (simp add: count_HOUSE_HIT_def)
  show "envelopes (player (checkEnvelopeHits g)) = [e1\<lparr>alive := False\<rparr>, e2]"
    using sc by (rule conjunct1 [OF conjunct2])
  show "houses (streetGen (checkEnvelopeHits g))
              = (houses (streetGen g))[i := hit (houses (streetGen g) ! i)]"
    using sc by (rule conjunct1 [OF conjunct2 [OF conjunct2]])
  show "isHit (houses (streetGen (checkEnvelopeHits g)) ! i)"
    using sc by (rule conjunct1 [OF conjunct2 [OF conjunct2 [OF conjunct2]]])
  show "length (homeowners (checkEnvelopeHits g)) = length (homeowners g) + 1"
    using sc by (rule conjunct2 [OF conjunct2 [OF conjunct2 [OF conjunct2]]])
qed

theorem house_hit_once_witness:
  "count_HOUSE_HIT (checkEnvelopeHits example_game) = 1
   \<and> map alive (envelopes (player (checkEnvelopeHits example_game))) = [False, True]
   \<and> map isHit (houses (streetGen (checkEnvelopeHits example_game))) = [True, False]
   \<and> length (homeowners (checkEnvelopeHits example_game)) = 1"
proof -
  let ?e1 = "example_envelope \<lparr>px = - 7, py = 1, pz = - 20\<rparr>"
  let ?e2 = "example_envelope \<lparr>px = - 6, py = 5 / 2, pz = - 19\<rparr>"
  have es: "envelopes (player example_game) = [?e1, ?e2]"
    by (simp add: example_game_def)
  have hs: "houses (streetGen example_game)
      = [fst (new_House (\<lambda>n. 1 / 2) (- 7) (- 20) Left 0),
         fst (new_House (\<lambda>n. 1 / 2) 7 (- 20) Right 0)]"
    by (simp add: example_game_def)
  have live: "alive ?e1" "alive ?e2"
    by (simp_all add: example_envelope_def)
  have i: "0 < length (houses (streetGen example_game))"
    by (simp add: hs)
  have unhit: "\<not> isHit (houses (streetGen example_game) ! 0)"
    by (simp add: hs new_House_def)
  have near: "\<bar>pz (position (houses (streetGen example_game) ! 0))
                - pz (position (player example_game))\<bar> < 50"
    by (simp add: hs new_House_def) (simp add: example_game_def)
  have over: "checkHouse ?e1 (houses (streetGen example_game) ! 0)"
             "checkHouse ?e2 (houses (streetGen example_game) ! 0)"
    by (simp_all add: hs new_House_def checkHouse_def example_envelope_def Let_def
          ENVELOPE_COLLISION_THRESHOLD_def sqrt_less_3)
  have others: "\<forall>k < length (houses (streetGen example_game)). k \<noteq> 0 \<longrightarrow>
        isHit (houses (streetGen example_game) ! k)
        \<or> \<bar>px (position (houses (streetGen example_game) ! k))
             - px (position (houses (streetGen example_game) ! 0))\<bar> \<ge> 6
        \<or> \<bar>pz (position (houses (streetGen example_game) ! k))
             - pz (position (houses (streetGen example_game) ! 0))\<bar> \<ge> 6"
    by (simp add: hs new_House_def less_Suc_eq)
  have "count_HOUSE_HIT (checkEnvelopeHits example_game) = count_HOUSE_HIT example_game + 1
      \<and> envelopes (player (checkEnvelopeHits example_game)) = [?e1\<lparr>alive := False\<rparr>, ?e2]
      \<and> houses (streetGen (checkEnvelopeHits example_game))
          = (houses (streetGen example_game))[0 := hit (houses (streetGen example_game) ! 0)]
      \<and> isHit (houses (streetGen (checkEnvelopeHits example_game)) ! 0)
      \<and> length (homeowners (checkEnvelopeHits example_game))
          = length (homeowners example_game) + 1"
  proof (rule mp [OF conjunct2 [OF conjunct2 [OF conjunct2 [OF conjunct2 [OF conjunct2
          [OF house_hit_once [of "houses (streetGen example_game) ! 0" example_game ?e1 ?e2 0]]]]]]])
    show "envelopes (player example_game) = [?e1, ?e2] \<and> alive ?e1 \<and> alive ?e2
       \<and> 0 < length (houses (streetGen example_game))
       \<and> \<not> isHit (houses (streetGen example_game) ! 0)
       \<and> \<bar>pz (position (houses (streetGen example_game) ! 0))
            - pz (position (player example_game))\<bar> < 50
       \<and> checkHouse ?e1 (houses (streetGen example_game) ! 0)
       \<and> checkHouse ?e2 (houses (streetGen example_game) ! 0)
       \<and> (\<forall>k < length (houses (streetGen example_game)). k \<noteq> 0 \<longrightarrow>
             isHit (houses (streetGen example_game) ! k)
             \<or> \<bar>px (position (houses (streetGen example_game) ! k))
                  - px (position (houses (streetGen example_game) ! 0))\<bar> \<ge> 6
             \<or> \<bar>pz (position (houses (streetGen example_game) ! k))
                  - pz (position (houses (streetGen example_game) ! 0))\<bar> \<ge> 6)"
      using es live i unhit near over others by (intro conjI)
  qed
  then show ?thesis
    by (simp add: hs count_HOUSE_HIT_def)
       (simp add: example_game_def example_envelope_def new_House_def hit_def)
qed

section \<open>Properties of the street generator\<close>


lemma generateRow_generatedZ:
  "generatedZ (fst (generateRow rnd z sn)) = generatedZ (fst sn)"
  by (simp add: generateRow_def Let_def)

lemma generate_rows_le_limit:
  "generatedZ (fst (generate_rows rnd limit sn)) \<le> limit"
proof (induction rnd limit sn rule: generate_rows.induct)
  case (1 rnd limit sn)
  show ?case
  proof (cases "generatedZ (fst sn) > limit")
    case True
    then show ?thesis
      using "1.IH" by (subst generate_rows.simps) (simp add: Let_def)
  next
    case False
    then show ?thesis
      by (subst generate_rows.simps) simp
  qed
qed

lemma generate_rows_le_start:
  "generatedZ (fst (generate_rows rnd limit sn)) \<le> generatedZ (fst sn)"
proof (induction rnd limit sn rule: generate_rows.induct)
  case (1 rnd limit sn)
  show ?case
  proof (cases "generatedZ (fst sn) > limit")
    case True
    then have "generatedZ (fst (generate_rows rnd limit sn))
        \<le> generatedZ (fst (generateRow rnd (generatedZ (fst sn)) sn)) - HOUSE_SPACING_Z"
      using "1.IH" by (subst generate_rows.simps) (simp add: Let_def)
    then show ?thesis
      by (simp add: generateRow_generatedZ HOUSE_SPACING_Z_def)
  next
    case False
    then show ?thesis
      by (subst generate_rows.simps) simp
  qed
qed

lemma StreetGenerator_update_generatedZ:
  "generatedZ (fst (StreetGenerator_update rnd speed delta playerZ sn))
     = generatedZ (fst (generate_rows rnd (playerZ - HOUSE_SPAWN_DISTANCE) sn))"
  by (simp add: StreetGenerator_update_def Let_def cleanup_def spawnAgent_def)

lemma generate_rows_exact:
  "generatedZ (fst sn) = limit + 6 * real k \<Longrightarrow>
   generatedZ (fst (generate_rows rnd limit sn)) = limit"
proof (induction k arbitrary: sn)
  case 0
  then show ?case by (subst generate_rows.simps) simp
next
  case (Suc k)
  let ?sn = "(let r = generateRow rnd (generatedZ (fst sn)) sn
           in ((fst r)\<lparr>generatedZ := generatedZ (fst r) - HOUSE_SPACING_Z\<rparr>, snd r))"
  have "generatedZ (fst ?sn) = limit + 6 * real k"
    using Suc.prems by (simp add: Let_def generateRow_generatedZ HOUSE_SPACING_Z_def)
  then have "generatedZ (fst (generate_rows rnd limit ?sn)) = limit"
    by (rule Suc.IH)
  moreover have "generatedZ (fst sn) > limit" using Suc.prems by simp
  ultimately show ?case
    by (subst generate_rows.simps) simp
qed

lemma generateInitial_from_10:
  "generatedZ (fst sn) = 10 \<Longrightarrow> generatedZ (fst (generateInitial rnd sn)) = - 80"
  unfolding generateInitial_def HOUSE_SPAWN_DISTANCE_def
  using generate_rows_exact [of sn "- 80" 15 rnd] by simp

text \<open>
  C7. \<open>update(delta, playerZ)\<close> always returns; it never increases \<open>generatedZ\<close>,
  and when it returns \<open>generatedZ \<le> playerZ - HOUSE.SPAWN_DISTANCE\<close>, so an
  under-filled window does not outlast one update. \<open>reset()\<close> leaves \<open>generatedZ\<close>
  at the value the constructor leaves it at, which is \<open>-80\<close>.
\<close>

theorem generatedZ_window:
  "generatedZ (fst (StreetGenerator_update rnd speed delta playerZ sn)) \<le> generatedZ (fst sn)
   \<and> generatedZ (fst (StreetGenerator_update rnd speed delta playerZ sn))
       \<le> playerZ - HOUSE_SPAWN_DISTANCE
   \<and> generatedZ (fst (StreetGenerator_reset rnd sn)) = generatedZ (fst (new_StreetGenerator rnd n))
   \<and> generatedZ (fst (new_StreetGenerator rnd n)) = - 80"
proof -
  have "generatedZ (fst (StreetGenerator_reset rnd sn)) = - 80"
    unfolding StreetGenerator_reset_def by (rule generateInitial_from_10) simp
  moreover have "generatedZ (fst (new_StreetGenerator rnd n)) = - 80"
    unfolding new_StreetGenerator_def
    by (rule generateInitial_from_10) (simp add: blank_StreetGenerator_def)
  ultimately show ?thesis
    by (simp add: StreetGenerator_update_generatedZ generate_rows_le_limit
          generate_rows_le_start)
qed

section \<open>Properties of the near-miss slow motion\<close>


lemma onNearMiss_active:
  "slowMoTimer (fst st) > 0 \<Longrightarrow> onNearMiss st = st"
  by (simp add: onNearMiss_def Let_def)

lemma onNearMiss_pow_active:
  "slowMoTimer (fst st) > 0 \<Longrightarrow> (onNearMiss ^^ k) st = st"
  by (induction k) (simp_all add: onNearMiss_active)

text \<open>
  While slow motion is active, a frame keeps the saved speed, and a frame that ends it
  restores the saved speed.
\<close>

lemma slowmo_frame_active:
  assumes "slowMoTimer (fst st) > 0"
  shows "slowMoOriginalSpeed (fst (slowmo_frame f st)) = slowMoOriginalSpeed (fst st)"
    and "slowMoTimer (fst (slowmo_frame f st)) \<le> 0 \<Longrightarrow>
           currentSpeed (snd (slowmo_frame f st)) = slowMoOriginalSpeed (fst st)"
  using assms
  by (simp_all add: slowmo_frame_def Let_def onNearMiss_pow_active Spectacle_update_def
        split: if_splits)

lemma run_until_recovery_restores:
  "slowMoTimer (fst st) > 0 \<Longrightarrow> run_until_recovery fs st = Some st' \<Longrightarrow>
   currentSpeed (snd st') = slowMoOriginalSpeed (fst st)"
proof (induction fs arbitrary: st)
  case Nil
  then show ?case by simp
next
  case (Cons f fs)
  show ?case
  proof (cases "slowMoTimer (fst (slowmo_frame f st)) \<le> 0")
    case True
    then have "st' = slowmo_frame f st" using Cons.prems(2) by (simp add: Let_def)
    then show ?thesis using slowmo_frame_active(2) [OF Cons.prems(1) True] by simp
  next
    case False
    then have rest: "run_until_recovery fs (slowmo_frame f st) = Some st'"
      using Cons.prems(2) by (simp add: Let_def)
    have "currentSpeed (snd st') = slowMoOriginalSpeed (fst (slowmo_frame f st))"
      using False by (intro Cons.IH [OF _ rest]) simp
    then show ?thesis
      by (simp add: slowmo_frame_active(1) [OF Cons.prems(1)])
  qed
qed

text \<open>
  C8. A near-miss event that arrives while no slow motion is running (and after the
  spectacle has seen a player position) saves \<open>currentSpeed\<close> and scales it by the
  slow-motion factor. Over any following frames, whatever the speed increases and
  further near misses in them, the frame in which the slow-motion timer runs out sets
  \<open>currentSpeed\<close> to exactly the saved value.
\<close>

theorem slowmo_restores_saved_speed:
  assumes "slowMoTimer sp \<le> 0" and "lastPlayerPos sp \<noteq> None"
  shows "currentSpeed (snd (onNearMiss (sp, gs)))
           = currentSpeed gs * SPECTACLE_NEAR_MISS_SLOWMO_FACTOR
         \<and> slowMoOriginalSpeed (fst (onNearMiss (sp, gs))) = currentSpeed gs
         \<and> slowMoTimer (fst (onNearMiss (sp, gs))) = SPECTACLE_NEAR_MISS_SLOWMO_DURATION
         \<and> (\<forall>fs st'. run_until_recovery fs (onNearMiss (sp, gs)) = Some st'
               \<longrightarrow> currentSpeed (snd st') = currentSpeed gs)"
proof -
  have a: "onNearMiss (sp, gs) =
      (sp\<lparr>slowMoOriginalSpeed := currentSpeed gs,
          slowMoTimer := SPECTACLE_NEAR_MISS_SLOWMO_DURATION,
          slowMoDuration := SPECTACLE_NEAR_MISS_SLOWMO_DURATION\<rparr>,
       gs\<lparr>currentSpeed := currentSpeed gs * SPECTACLE_NEAR_MISS_SLOWMO_FACTOR\<rparr>)"
    using assms by (auto simp: onNearMiss_def Let_def)
  have pos: "slowMoTimer (fst (onNearMiss (sp, gs))) > 0"
    by (simp add: a SPECTACLE_NEAR_MISS_SLOWMO_DURATION_def)
  have "currentSpeed (snd st') = currentSpeed gs"
    if "run_until_recovery fs (onNearMiss (sp, gs)) = Some st'" for fs st'
    using run_until_recovery_restores [OF pos that] by (simp add: a)
  then show ?thesis
    by (simp add: a)
qed


theorem slowmo_restores_saved_speed_witness:
  "slowMoTimer example_spectacle \<le> 0
   \<and> lastPlayerPos example_spectacle \<noteq> None
   \<and> currentSpeed (snd (onNearMiss (example_spectacle, new_GameState None))) = 56 / 10
   \<and> currentSpeed
         (snd (slowmo_frame (example_frames ! 0)
                 (onNearMiss (example_spectacle, new_GameState None)))) = 56075 / 10000
   \<and> map_option (\<lambda>st. currentSpeed (snd st))
         (run_until_recovery example_frames
            (onNearMiss (example_spectacle, new_GameState None))) = Some 8"
proof -
  have a: "slowMoTimer example_spectacle \<le> 0"
    and b: "lastPlayerPos example_spectacle \<noteq> None"
    by (simp_all add: example_spectacle_def)
  have "\<exists>st'. run_until_recovery example_frames
              (onNearMiss (example_spectacle, new_GameState None)) = Some st'"
    by (simp add: example_frames_def example_spectacle_def onNearMiss_def Let_def
          new_GameState_def slowmo_frame_def Player_update_speed_def Spectacle_update_def
          gameplay_consts SPECTACLE_NEAR_MISS_SLOWMO_DURATION_def
          SPECTACLE_NEAR_MISS_SLOWMO_FACTOR_def)
  then obtain st' where r: "run_until_recovery example_frames
              (onNearMiss (example_spectacle, new_GameState None)) = Some st'" ..
  note main = slowmo_restores_saved_speed [OF a b, of "new_GameState None"]
  have v: "currentSpeed (new_GameState None) = 8"
    by (simp add: new_GameState_def GAMEPLAY_AUTO_SPEED_def)
  have "currentSpeed (snd st') = currentSpeed (new_GameState None)"
    using main r by blast
  then have c: "currentSpeed (snd st') = 8"
    by (simp only: v)
  have "currentSpeed (snd (onNearMiss (example_spectacle, new_GameState None)))
          = currentSpeed (new_GameState None) * SPECTACLE_NEAR_MISS_SLOWMO_FACTOR"
    using main by blast
  then have d: "currentSpeed (snd (onNearMiss (example_spectacle, new_GameState None))) = 56 / 10"
    by (simp add: v SPECTACLE_NEAR_MISS_SLOWMO_FACTOR_def del: snd_conv)
  have e: "currentSpeed
         (snd (slowmo_frame (example_frames ! 0)
                 (onNearMiss (example_spectacle, new_GameState None)))) = 56075 / 10000"
    by (simp add: example_frames_def example_spectacle_def onNearMiss_def Let_def
          new_GameState_def slowmo_frame_def Player_update_speed_def Spectacle_update_def
          gameplay_consts SPECTACLE_NEAR_MISS_SLOWMO_DURATION_def
          SPECTACLE_NEAR_MISS_SLOWMO_FACTOR_def)
  show ?thesis
    using a b c d e by (simp add: r)
qed

section \<open>Properties of the event bus\<close>


lemma deliver_append:
  "deliver impl ev (xs @ ys) d w = deliver impl ev ys d (deliver impl ev xs d w)"
  by (induction xs arbitrary: w) (simp_all add: Let_def)

lemma deliver_calls: "calls (deliver impl ev hs d w) = calls w @ hs"
  by (induction hs arbitrary: w) (simp_all add: Let_def split: option.splits)

lemma deliver_console_mono:
  "set (console w) \<subseteq> set (console (deliver impl ev hs d w))"
proof (induction hs arbitrary: w)
  case Nil
  show ?case by simp
next
  case (Cons h hs)
  define w2 where "w2 =
    (let r = impl h d (state w);
         w1 = w\<lparr>state := snd r, calls := calls w @ [h]\<rparr>
     in case fst r of None \<Rightarrow> w1 | Some err \<Rightarrow> w1\<lparr>console := console w1 @ [(ev, err)]\<rparr>)"
  have "set (console w) \<subseteq> set (console w2)"
    by (auto simp: w2_def Let_def split: option.splits)
  moreover have "deliver impl ev (h # hs) d w = deliver impl ev hs d w2"
    by (simp add: w2_def Let_def)
  ultimately show ?case
    using Cons.IH [of w2] by auto
qed

lemma deliver_logs_throw:
  assumes "k < length hs"
    and "fst (impl (hs ! k) d (state (deliver impl ev (take k hs) d w))) = Some err"
  shows "(ev, err) \<in> set (console (deliver impl ev hs d w))"
proof -
  define w1 where "w1 = deliver impl ev (take k hs) d w"
  have split: "hs = take k hs @ (hs ! k # drop (Suc k) hs)"
    using assms(1) by (simp add: id_take_nth_drop)
  have "deliver impl ev hs d w = deliver impl ev (hs ! k # drop (Suc k) hs) d w1"
    unfolding w1_def by (subst split) (simp only: deliver_append)
  moreover have "(ev, err) \<in> set (console (deliver impl ev (hs ! k # drop (Suc k) hs) d w1))"
  proof -
    define w2 where "w2 = w1\<lparr>state := snd (impl (hs ! k) d (state w1)),
        calls := calls w1 @ [hs ! k], console := console w1 @ [(ev, err)]\<rparr>"
    have "deliver impl ev (hs ! k # drop (Suc k) hs) d w1
        = deliver impl ev (drop (Suc k) hs) d w2"
      using assms(2) by (simp add: Let_def w1_def w2_def)
    moreover have "(ev, err) \<in> set (console w2)"
      by (simp add: w2_def)
    ultimately show ?thesis
      using deliver_console_mono [of w2 impl ev "drop (Suc k) hs" d] by auto
  qed
  ultimately show ?thesis by simp
qed

lemma on_registered:
  "on ev h b = Inr b1 \<Longrightarrow> listeners b1 ev = Some (registered b ev @ [h])"
  by (auto simp: on_def lookup_def registered_def split: option.splits if_splits)

lemma subscribe_registered:
  "subscribe ev hs b = Inr b1 \<Longrightarrow> registered b1 ev = registered b ev @ hs"
proof (induction hs arbitrary: b)
  case Nil
  then show ?case by simp
next
  case (Cons h hs)
  then obtain b0 where o: "on ev h b = Inr b0" and s: "subscribe ev hs b0 = Inr b1"
    by (auto split: sum.splits)
  have "registered b0 ev = registered b ev @ [h]"
    using on_registered [OF o] by (simp add: registered_def)
  then show ?case using Cons.IH [OF s] by simp
qed

lemma subscribe_listeners:
  "subscribe ev hs b = Inr b1 \<Longrightarrow> hs \<noteq> [] \<Longrightarrow> listeners b1 ev \<noteq> None"
proof (induction hs arbitrary: b)
  case Nil
  then show ?case by simp
next
  case (Cons h hs)
  then obtain b0 where o: "on ev h b = Inr b0" and s: "subscribe ev hs b0 = Inr b1"
    by (auto split: sum.splits)
  show ?case
  proof (cases hs)
    case Nil
    then show ?thesis using s on_registered [OF o] by simp
  next
    case (Cons a as)
    then show ?thesis using Cons.IH [OF s] by simp
  qed
qed

lemma emit_snd:
  "snd (emit impl ev d b w) = deliver impl ev (registered b ev) d w"
  by (simp add: emit_def lookup_def registered_def split: option.splits)

lemma emit_fst:
  "listeners b ev \<noteq> None \<Longrightarrow> fst (emit impl ev d b w) = None"
  by (auto simp: emit_def lookup_def split: option.splits)

text \<open>
  C9. For every event name and every list of callbacks subscribed to it with \<open>on\<close>,
  \<open>emit\<close> invokes the callbacks registered for that name one after the other in
  registration order (those registered earlier first, then the new ones); a callback
  that throws does not stop the delivery: every callback is still invoked, what was
  thrown is written to the console with the event name, and \<open>emit\<close> itself returns
  normally.
\<close>

theorem emit_delivers_in_order:
  assumes "subscribe ev hs b = Inr b1"
  shows "calls (snd (emit impl ev d b1 w)) = calls w @ registered b ev @ hs
    \<and> (hs \<noteq> [] \<longrightarrow> fst (emit impl ev d b1 w) = None)
    \<and> (\<forall>k < length (registered b ev @ hs). \<forall>err.
          fst (impl ((registered b ev @ hs) ! k) d
                 (state (deliver impl ev (take k (registered b ev @ hs)) d w))) = Some err
          \<longrightarrow> (ev, err) \<in> set (console (snd (emit impl ev d b1 w))))
    \<and> snd (emit impl ev d b1 w) = deliver impl ev (registered b ev @ hs) d w"
proof -
  have r: "registered b1 ev = registered b ev @ hs"
    using assms by (rule subscribe_registered)
  have e: "snd (emit impl ev d b1 w) = deliver impl ev (registered b ev @ hs) d w"
    by (simp add: emit_snd r)
  have f: "fst (emit impl ev d b1 w) = None" if "hs \<noteq> []"
    using subscribe_listeners [OF assms that] by (rule emit_fst)
  show ?thesis
    unfolding e using f by (auto simp: deliver_calls intro: deliver_logs_throw)
qed

theorem emit_delivers_in_order_witness:
  "\<not> isl (subscribe ''house:hit'' [1, 2, 3] (new_EventBus :: nat EventBus))
   \<and> calls (snd (emit example_impl ''house:hit'' ()
                (projr (subscribe ''house:hit'' [1, 2, 3] new_EventBus)) example_world))
       = [1, 2, 3]
   \<and> state (snd (emit example_impl ''house:hit'' ()
                (projr (subscribe ''house:hit'' [1, 2, 3] new_EventBus)) example_world))
       = [1, 2, 3]
   \<and> console (snd (emit example_impl ''house:hit'' ()
                (projr (subscribe ''house:hit'' [1, 2, 3] new_EventBus)) example_world))
       = [(''house:hit'', ''boom'')]
   \<and> fst (emit example_impl ''house:hit'' ()
                (projr (subscribe ''house:hit'' [1, 2, 3] new_EventBus)) example_world)
       = None"
proof -
  have "\<exists>b1. subscribe ''house:hit'' [1, 2, 3] (new_EventBus :: nat EventBus) = Inr b1"
    by (simp add: on_def lookup_def new_EventBus_def object_prototype_keys_def)
  then obtain b1 where s: "subscribe ''house:hit'' [1, 2, 3] (new_EventBus :: nat EventBus) = Inr b1"
    ..
  note main = emit_delivers_in_order [OF s, of example_impl "()" example_world]
  have reg: "registered (new_EventBus :: nat EventBus) ''house:hit'' = []"
    by (simp add: registered_def new_EventBus_def)
  have "calls (snd (emit example_impl ''house:hit'' () b1 example_world))
      = calls example_world @ registered new_EventBus ''house:hit'' @ [1, 2, 3]"
    using main by blast
  then have c: "calls (snd (emit example_impl ''house:hit'' () b1 example_world)) = [1, 2, 3]"
    by (simp add: reg example_world_def)
  have f: "fst (emit example_impl ''house:hit'' () b1 example_world) = None"
    using main by blast
  have "snd (emit example_impl ''house:hit'' () b1 example_world)
      = deliver example_impl ''house:hit'' (registered new_EventBus ''house:hit'' @ [1, 2, 3]) ()
          example_world"
    using main by blast
  then have e: "snd (emit example_impl ''house:hit'' () b1 example_world)
      = deliver example_impl ''house:hit'' [1, 2, 3] () example_world"
    by (simp add: reg)
  have st: "state (deliver example_impl ''house:hit'' [1, 2, 3] () example_world) = [1, 2, 3]"
    and co: "console (deliver example_impl ''house:hit'' [1, 2, 3] () example_world)
      = [(''house:hit'', ''boom'')]"
    by (simp_all add: example_impl_def example_world_def Let_def)
  have st1: "state (snd (emit example_impl ''house:hit'' () b1 example_world)) = [1, 2, 3]"
    and co1: "console (snd (emit example_impl ''house:hit'' () b1 example_world))
      = [(''house:hit'', ''boom'')]"
    unfolding e by (rule st, rule co)
  show ?thesis
    unfolding s using c f st1 co1 by (simp del: deliver.simps)
qed

end
